theory Spec2Isabelle
  imports Main "HOL-Library.Char_ord" "HOL-Library.List_Lexorder" "HOL-Library.Product_Lexorder"
begin

section \<open>Data model of \<^verbatim>\<open>reader.py\<close>\<close>

text \<open>
  The reader works on pandas data frames. A frame is modelled by its column labels and its
  rows in order; every row carries its index label and its cells. A cell is a string, a
  number, a parsed timestamp (an instant counted from the epoch) or the missing marker
  (\<^verbatim>\<open>NaN\<close>/\<^verbatim>\<open>NaT\<close>). The code never computes with a measurement, it only moves and
  compares cells, so numbers are integers here. Strings are lists of 8-bit characters read as
  code points and compared as Python compares them, code point by code point.

  Frames that \<^verbatim>\<open>pd.read_csv\<close> makes have pairwise distinct column labels, rows as long
  as the header, and the index labels \<^verbatim>\<open>0, 1, 2, ...\<close>.
\<close>

datatype cell = Str string | Num int | Time int | NA

record frame =
  columns :: "string list"
  rows :: "(cell \<times> cell list) list"

text \<open>The exceptions the code and the pandas calls it makes can raise. All of them are
  subclasses of Python's \<^verbatim>\<open>Exception\<close>; interpreter exits are not modelled.\<close>

datatype py_error =
    KeyError | IndexError | TypeError | ValueError | AttributeError
  | InvalidIndexError | FileNotFoundError | LibraryError string | Unmodelled

definition frame_ok :: "frame \<Rightarrow> bool" where
  "frame_ok df = (distinct (columns df) \<and>
     list_all (\<lambda>r. length (snd r) = length (columns df)) (rows df))"

definition range_index :: "cell list list \<Rightarrow> (cell \<times> cell list) list" where
  "range_index rs = zip (map (\<lambda>i. Num (int i)) [0..<length rs]) rs"

definition empty_frame :: "frame \<Rightarrow> bool" where
  "empty_frame df = (columns df = [] \<or> rows df = [])"

section \<open>Schema descriptors and detection\<close>

text \<open>
  \<^verbatim>\<open>@dataclass class Schema: name; predicate; normalizer = None\<close>.
  A predicate or a normalizer is Python code that may raise, so it returns an error or a value.
\<close>

record schema =
  name :: string
  predicate :: "frame \<Rightarrow> py_error + bool"
  normalizer :: "(frame \<Rightarrow> py_error + frame) option"

text \<open>
  \<^verbatim>\<open>detect_schema_from_df\<close> loops over the registry (the module's global list, here
  an argument), returns the first schema whose predicate is true, skips one whose predicate
  raises, and returns \<^verbatim>\<open>None\<close> after the loop.
\<close>

fun detect_schema_from_df :: "schema list \<Rightarrow> frame \<Rightarrow> schema option" where
  "detect_schema_from_df [] df = None"
| "detect_schema_from_df (s # ss) df =
     (case predicate s df of
        Inr True \<Rightarrow> Some s
      | Inr False \<Rightarrow> detect_schema_from_df ss df
      | Inl e \<Rightarrow> detect_schema_from_df ss df)"

definition matches :: "frame \<Rightarrow> schema \<Rightarrow> bool" where
  "matches df s = (predicate s df = Inr True)"

section \<open>The pandas operations the reader calls\<close>

text \<open>
  \<^verbatim>\<open>df[c]\<close> selects the column labelled \<open>c\<close>: a missing label raises KeyError. With
  a repeated label pandas hands back a frame instead of a column, and each use this code makes
  of it raises; the model raises ValueError there.
\<close>

definition get_column :: "string \<Rightarrow> frame \<Rightarrow> py_error + nat" where
  "get_column c df =
     (case filter (\<lambda>i. columns df ! i = c) [0..<length (columns df)] of
        [] \<Rightarrow> Inl KeyError
      | [i] \<Rightarrow> Inr i
      | _ \<Rightarrow> Inl ValueError)"

definition column_values :: "nat \<Rightarrow> frame \<Rightarrow> cell list" where
  "column_values i df = map (\<lambda>r. snd r ! i) (rows df)"

definition set_column :: "nat \<Rightarrow> cell list \<Rightarrow> frame \<Rightarrow> frame" where
  "set_column i vs df = df\<lparr>rows := map2 (\<lambda>r v. (fst r, (snd r)[i := v])) (rows df) vs\<rparr>"

text \<open>
  \<^verbatim>\<open>pd.to_datetime\<close>, cell by cell. The library's parser of timestamp strings is the
  parameter \<open>parse\<close>; a string it rejects raises (a ValueError). Numbers count from the
  epoch, parsed instants stay, a missing cell becomes the missing instant.
\<close>

fun to_datetime_cell :: "(string \<Rightarrow> int option) \<Rightarrow> cell \<Rightarrow> py_error + cell" where
  "to_datetime_cell parse (Str s) = (case parse s of None \<Rightarrow> Inl ValueError | Some t \<Rightarrow> Inr (Time t))"
| "to_datetime_cell parse (Num n) = Inr (Time n)"
| "to_datetime_cell parse (Time t) = Inr (Time t)"
| "to_datetime_cell parse NA = Inr NA"

fun to_datetime :: "(string \<Rightarrow> int option) \<Rightarrow> cell list \<Rightarrow> py_error + cell list" where
  "to_datetime parse [] = Inr []"
| "to_datetime parse (c # cs) =
     (case to_datetime_cell parse c of
        Inl e \<Rightarrow> Inl e
      | Inr t \<Rightarrow> (case to_datetime parse cs of Inl e \<Rightarrow> Inl e | Inr ts \<Rightarrow> Inr (t # ts)))"

text \<open>The statement \<^verbatim>\<open>df['Timestamp'] = pd.to_datetime(df['Timestamp'])\<close> of both
  normalizers.\<close>

definition parse_timestamp_column :: "(string \<Rightarrow> int option) \<Rightarrow> frame \<Rightarrow> py_error + frame" where
  "parse_timestamp_column parse df =
     (case get_column ''Timestamp'' df of
        Inl e \<Rightarrow> Inl e
      | Inr i \<Rightarrow>
          (case to_datetime parse (column_values i df) of
             Inl e \<Rightarrow> Inl e
           | Inr ts \<Rightarrow> Inr (set_column i ts df)))"

text \<open>
  \<^verbatim>\<open>df.pivot(index=ix, columns=cl, values=vl)\<close>: one row per distinct value of the
  index column and one column per distinct value of the columns column, both sorted; the cell
  is the value of the input row with that pair of keys and missing when there is none. Two
  input rows with the same pair raise ValueError. The model covers key
  columns that hold strings only, which is what the reader's files hold; other keys end in
  \<open>Unmodelled\<close>. The result's index labels are the index column's values.
\<close>

fun the_str :: "cell \<Rightarrow> string" where
  "the_str (Str s) = s"
| "the_str _ = []"

fun is_str :: "cell \<Rightarrow> bool" where
  "is_str (Str s) = True"
| "is_str _ = False"

definition pivot :: "string \<Rightarrow> string \<Rightarrow> string \<Rightarrow> frame \<Rightarrow> py_error + frame" where
  "pivot ix cl vl df =
     (case get_column ix df of Inl e \<Rightarrow> Inl e | Inr i \<Rightarrow>
      case get_column cl df of Inl e \<Rightarrow> Inl e | Inr c \<Rightarrow>
      case get_column vl df of Inl e \<Rightarrow> Inl e | Inr v \<Rightarrow>
        let keys = map (\<lambda>r. (snd r ! i, snd r ! c)) (rows df);
            tab = map (\<lambda>r. ((the_str (snd r ! i), the_str (snd r ! c)), snd r ! v)) (rows df)
        in if \<not> list_all (\<lambda>(a, b). is_str a \<and> is_str b) keys then Inl Unmodelled
           else if \<not> distinct keys then Inl ValueError
           else Inr \<lparr>columns = sort (remdups (map (snd \<circ> fst) tab)),
                     rows = map (\<lambda>t. (Str t,
                              map (\<lambda>n. case map_of tab (t, n) of None \<Rightarrow> NA | Some x \<Rightarrow> x)
                                (sort (remdups (map (snd \<circ> fst) tab)))))
                            (sort (remdups (map (fst \<circ> fst) tab)))\<rparr>)"

text \<open>\<^verbatim>\<open>df.rename(columns=d)\<close>: a label that is a key of \<open>d\<close> is replaced, any other
  label stays.\<close>

definition rename :: "(string \<times> string) list \<Rightarrow> frame \<Rightarrow> frame" where
  "rename d df =
     df\<lparr>columns := map (\<lambda>c. case map_of d c of None \<Rightarrow> c | Some c' \<Rightarrow> c') (columns df)\<rparr>"

text \<open>\<^verbatim>\<open>df.drop(columns=[c])\<close> with the default \<^verbatim>\<open>errors='raise'\<close>: KeyError
  when no column has the label.\<close>

definition drop_column :: "string \<Rightarrow> frame \<Rightarrow> py_error + frame" where
  "drop_column c df =
     (if c \<notin> set (columns df) then Inl KeyError
      else Inr \<lparr>columns = filter (\<lambda>c'. c' \<noteq> c) (columns df),
                rows = map (\<lambda>r. (fst r, map snd (filter (\<lambda>p. fst p \<noteq> c) (zip (columns df) (snd r)))))
                         (rows df)\<rparr>)"

text \<open>\<^verbatim>\<open>df.reset_index(names=c)\<close>: the index becomes the first column, labelled
  \<open>c\<close> (ValueError when that label is taken), and the rows are labelled \<open>0, 1, ...\<close> anew.
  \<^verbatim>\<open>df.reset_index(drop=True)\<close> only relabels.\<close>

definition reset_index_names :: "string \<Rightarrow> frame \<Rightarrow> py_error + frame" where
  "reset_index_names c df =
     (if c \<in> set (columns df) then Inl ValueError
      else Inr \<lparr>columns = c # columns df,
                rows = range_index (map (\<lambda>r. fst r # snd r) (rows df))\<rparr>)"

definition reset_index_drop :: "frame \<Rightarrow> frame" where
  "reset_index_drop df = df\<lparr>rows := range_index (map snd (rows df))\<rparr>"

section \<open>The two schemas\<close>

definition rename_table :: "(string \<times> string) list" where
  "rename_table =
    [(''Analog_PC_CIT101.Analog_out'', ''Salt Conductivity (ms/cm)''),
     (''Analog_PC_CIT102.Analog_out'', ''Acid Conductivity (ms/cm)''),
     (''Analog_PC_CIT103.Analog_out'', ''Base Conductivity (ms/cm)''),
     (''Analog_PC_HFK101_II.Analog_out'', ''PS Current (Amps)''),
     (''Analog_PC_HFK101_UI.Analog_out'', ''PS Voltage (Volts)''),
     (''Analog_PC_TI101.Analog_out'', ''Acid? Temperature (C)''),
     (''Analog_PC_TI102.Analog_out'', ''Base? Temperature (C)''),
     (''Analog_PC_TI103.Analog_out'', ''Salt? Temperature (C)''),
     (''Analog_PC_TI104.Analog_out'', ''Electrolyte? Temperature (C)'')]"

definition pivot_iontech :: "frame \<Rightarrow> py_error + frame" where
  "pivot_iontech df =
     (case pivot ''TimeString'' ''VarName'' ''VarValue'' df of
        Inl e \<Rightarrow> Inl e
      | Inr df1 \<Rightarrow>
          (case drop_column ''$RT_DIS$'' (rename rename_table df1) of
             Inl e \<Rightarrow> Inl e
           | Inr df2 \<Rightarrow> reset_index_names ''Timestamp'' df2))"

text \<open>\<^verbatim>\<open>_schema_1_pred\<close>: \<^verbatim>\<open>df.columns[0]\<close> and \<^verbatim>\<open>df.columns[1]\<close> raise
  IndexError on a header that is too short.\<close>

definition schema_1_pred :: "frame \<Rightarrow> py_error + bool" where
  "schema_1_pred df =
     (case columns df of
        [] \<Rightarrow> Inl IndexError
      | c0 # cs \<Rightarrow>
          if c0 \<noteq> ''VarName'' then Inr False
          else (case cs of
                  [] \<Rightarrow> Inl IndexError
                | c1 # _ \<Rightarrow> if c1 \<noteq> ''TimeString'' then Inr False else Inr True))"

text \<open>
  \<^verbatim>\<open>_schema_2_pred\<close> matches the cell \<^verbatim>\<open>df['Timestamp'][0]\<close> against
  \<^verbatim>\<open>^\d{4}-\d{2}-\d{2} \d{2}:\d{2}:\d{2}\.\d$\<close>. In the pattern below \<open>d\<close> stands for
  a digit; \<^verbatim>\<open>$\<close> also matches before one final newline. The lookup \<^verbatim>\<open>[0]\<close> is by
  index label: no row labelled 0 raises KeyError, a cell that is not a string (or several
  rows labelled 0) makes \<^verbatim>\<open>match\<close> raise TypeError.
\<close>

definition is_digit :: "char \<Rightarrow> bool" where
  "is_digit c = (CHR ''0'' \<le> c \<and> c \<le> CHR ''9'')"

definition date_format :: string where
  "date_format = ''dddd-dd-dd dd:dd:dd.d''"

definition full_match :: "string \<Rightarrow> string \<Rightarrow> bool" where
  "full_match pat s = list_all2 (\<lambda>p c. if p = CHR ''d'' then is_digit c else c = p) pat s"

definition date_format_match :: "string \<Rightarrow> bool" where
  "date_format_match s =
     (full_match date_format s \<or>
      (s \<noteq> [] \<and> last s = CHR 0x0A \<and> full_match date_format (butlast s)))"

definition schema_2_pred :: "frame \<Rightarrow> py_error + bool" where
  "schema_2_pred df =
     (case get_column ''Timestamp'' df of
        Inl e \<Rightarrow> Inl e
      | Inr i \<Rightarrow>
          (case filter (\<lambda>r. fst r = Num 0) (rows df) of
             [] \<Rightarrow> Inl KeyError
           | [r] \<Rightarrow> (case snd r ! i of
                       Str s \<Rightarrow> if \<not> date_format_match s then Inr False else Inr True
                     | _ \<Rightarrow> Inl TypeError)
           | _ \<Rightarrow> Inl TypeError))"

text \<open>\<^verbatim>\<open>_schema_1_normalize\<close>; its line \<^verbatim>\<open>df.columns.name = None\<close> clears the name
  of the column axis, which the model does not carry.\<close>

definition schema_1_normalize :: "(string \<Rightarrow> int option) \<Rightarrow> frame \<Rightarrow> py_error + frame" where
  "schema_1_normalize parse df =
     (case pivot_iontech df of
        Inl e \<Rightarrow> Inl e
      | Inr df1 \<Rightarrow> parse_timestamp_column parse df1)"

definition schema_2_normalize :: "(string \<Rightarrow> int option) \<Rightarrow> frame \<Rightarrow> py_error + frame" where
  "schema_2_normalize parse df = parse_timestamp_column parse df"

definition SCHEMA_REGISTRY :: "(string \<Rightarrow> int option) \<Rightarrow> schema list" where
  "SCHEMA_REGISTRY parse =
     [\<lparr>name = ''altasea iontech bl3t-25'', predicate = schema_1_pred,
       normalizer = Some (schema_1_normalize parse)\<rparr>,
      \<lparr>name = ''degas system control datalog'', predicate = schema_2_pred,
       normalizer = Some (schema_2_normalize parse)\<rparr>]"

section \<open>Merging the frames kept\<close>

text \<open>
  \<^verbatim>\<open>pd.concat(dfs, join='outer')\<close>: no frames raise ValueError (``No objects to
  concatenate''). Frames with one and the same header are stacked. Otherwise the header is the
  union of the headers in order of first appearance and every row is laid out under it, a cell
  with no source column missing; that needs unique labels in every frame (InvalidIndexError).
  Rows keep their index labels.
\<close>

fun keep_first :: "'a list \<Rightarrow> 'a list \<Rightarrow> 'a list" where
  "keep_first seen [] = []"
| "keep_first seen (x # xs) =
     (if x \<in> set seen then keep_first seen xs else x # keep_first (x # seen) xs)"

definition reindex_row :: "string list \<Rightarrow> frame \<Rightarrow> cell \<times> cell list \<Rightarrow> cell \<times> cell list" where
  "reindex_row cols df r =
     (fst r, map (\<lambda>c. case map_of (zip (columns df) (snd r)) c of None \<Rightarrow> NA | Some v \<Rightarrow> v) cols)"

definition pd_concat :: "frame list \<Rightarrow> py_error + frame" where
  "pd_concat dfs =
     (case dfs of
        [] \<Rightarrow> Inl ValueError
      | d # ds \<Rightarrow>
          if list_all (\<lambda>x. columns x = columns d) ds
          then Inr \<lparr>columns = columns d, rows = concat (map rows dfs)\<rparr>
          else if \<not> list_all (\<lambda>x. distinct (columns x)) dfs then Inl InvalidIndexError
          else Inr \<lparr>columns = keep_first [] (concat (map columns dfs)),
                    rows = concat (map (\<lambda>x. map (reindex_row
                              (keep_first [] (concat (map columns dfs))) x) (rows x)) dfs)\<rparr>)"

text \<open>
  \<^verbatim>\<open>df.sort_values(by=c)\<close>: ascending, missing cells last. Python orders instants
  with instants, numbers with numbers and strings with strings; a column that mixes them
  raises TypeError. pandas does not fix the order of rows with equal keys; the model keeps
  their order, and the claims proved below hold for any order of such rows.
\<close>

fun cell_le :: "cell \<Rightarrow> cell \<Rightarrow> bool" where
  "cell_le c NA = True"
| "cell_le NA c = False"
| "cell_le (Time a) (Time b) = (a \<le> b)"
| "cell_le (Num a) (Num b) = (a \<le> b)"
| "cell_le (Str a) (Str b) = (a \<le> b)"
| "cell_le c d = False"

fun cell_kind :: "cell \<Rightarrow> nat" where
  "cell_kind (Str s) = 0"
| "cell_kind (Num n) = 1"
| "cell_kind (Time t) = 2"
| "cell_kind NA = 3"

definition comparable :: "cell list \<Rightarrow> bool" where
  "comparable cs = (length (remdups (map cell_kind (filter (\<lambda>c. c \<noteq> NA) cs))) \<le> 1)"

fun order_key :: "cell \<Rightarrow> nat \<times> int \<times> string" where
  "order_key (Str s) = (0, 0, s)"
| "order_key (Num n) = (0, n, [])"
| "order_key (Time t) = (0, t, [])"
| "order_key NA = (1, 0, [])"

definition sort_values :: "string \<Rightarrow> frame \<Rightarrow> py_error + frame" where
  "sort_values c df =
     (case get_column c df of
        Inl e \<Rightarrow> Inl e
      | Inr k \<Rightarrow>
          if \<not> comparable (column_values k df) then Inl TypeError
          else Inr (df\<lparr>rows := sort_key (\<lambda>r. order_key (snd r ! k)) (rows df)\<rparr>))"

text \<open>\<^verbatim>\<open>df.drop_duplicates()\<close>: of the rows with the same cells in every column the
  first stays; index labels do not count, and missing cells count as equal.\<close>

fun drop_dups_from :: "cell list list \<Rightarrow> (cell \<times> cell list) list \<Rightarrow> (cell \<times> cell list) list" where
  "drop_dups_from seen [] = []"
| "drop_dups_from seen (r # rs) =
     (if snd r \<in> set seen then drop_dups_from seen rs
      else r # drop_dups_from (snd r # seen) rs)"

definition drop_duplicates :: "frame \<Rightarrow> frame" where
  "drop_duplicates df = df\<lparr>rows := drop_dups_from [] (rows df)\<rparr>"

section \<open>Loading one file\<close>

text \<open>
  \<^verbatim>\<open>df.to_feather('data.feather')\<close> stores the frame, or raises. It may raise before
  the file is opened for writing, and then the file is as it was; or after, and then the file
  has been truncated and holds no frame any more. Which frames the library refuses, and when,
  is the library's matter: the outcome for a frame is taken from outside.
\<close>

datatype store_outcome = Stored_ok | Raises_before_open py_error | Raises_after_open py_error

text \<open>
  What the reader takes from outside: the three \<^verbatim>\<open>pd.read_csv\<close> calls it makes
  (with \<^verbatim>\<open>nrows=n\<close>; with tab delimiter, UTF-16 and the footer skipped; plain),
  \<^verbatim>\<open>DataFrame.to_feather\<close>, \<^verbatim>\<open>difflib.unified_diff\<close> and
  \<^verbatim>\<open>os.listdir\<close>. Each parser gives a frame or raises.
\<close>

record env =
  read_csv_nrows :: "nat \<Rightarrow> string \<Rightarrow> py_error + frame"
  read_csv_utf16_tab :: "string \<Rightarrow> py_error + frame"
  read_csv :: "string \<Rightarrow> py_error + frame"
  to_feather :: "frame \<Rightarrow> store_outcome"
  unified_diff :: "string list \<Rightarrow> string list \<Rightarrow> string list"
  listdir :: "string \<Rightarrow> py_error + string list"

text \<open>The extension \<^verbatim>\<open>os.path.splitext\<close> returns (POSIX paths): it starts at the last
  dot of the last path component, leading dots of the component apart.\<close>

definition basename :: "string \<Rightarrow> string" where
  "basename p = rev (takeWhile (\<lambda>c. c \<noteq> CHR ''/'') (rev p))"

definition splitext_ext :: "string \<Rightarrow> string" where
  "splitext_ext p =
     (let stem = dropWhile (\<lambda>c. c = CHR ''.'') (basename p)
      in if CHR ''.'' \<in> set stem
         then CHR ''.'' # rev (takeWhile (\<lambda>c. c \<noteq> CHR ''.'') (rev stem))
         else [])"

text \<open>
  \<^verbatim>\<open>_read_file\<close>. For \<^verbatim>\<open>.txt\<close> the first read is tried and any exception of it
  is swallowed; the second read's exception is raised again. For \<^verbatim>\<open>.csv\<close> the one
  read's exception is raised again. For any other extension the function ends without a
  \<^verbatim>\<open>return\<close>, so its value is Python's \<^verbatim>\<open>None\<close>: the \<open>Inr None\<close> here.
\<close>

definition read_file :: "env \<Rightarrow> string \<Rightarrow> py_error + frame option" where
  "read_file E p =
     (if splitext_ext p = ''.txt'' then
        (case read_csv_nrows E 4 p of
           Inr df \<Rightarrow> Inr (Some df)
         | Inl e \<Rightarrow>
             (case read_csv_utf16_tab E p of
                Inr df \<Rightarrow> Inr (Some df)
              | Inl e' \<Rightarrow> Inl e'))
      else if splitext_ext p = ''.csv'' then
        (case read_csv E p of
           Inr df \<Rightarrow> Inr (Some df)
         | Inl e \<Rightarrow> Inl e)
      else Inr None)"

section \<open>The log of file names and the cache\<close>

text \<open>The files the reader owns: \<^verbatim>\<open>filenames.txt\<close> (its text, if it exists),
  \<^verbatim>\<open>data.feather\<close> (absent, holding a frame, or truncated by a store that raised),
  and what was printed. The log is written to a temporary file that then replaces
  \<^verbatim>\<open>filenames.txt\<close>; only the outcome, the new text of the log, is kept here.\<close>

datatype cache = NoFile | Stored frame | Truncated

record disk =
  log_file :: "string option"
  feather :: cache
  printed :: "string list"

text \<open>\<^verbatim>\<open>str.splitlines\<close> and \<^verbatim>\<open>str.strip\<close> on code points below 256.\<close>

definition is_linebreak :: "char \<Rightarrow> bool" where
  "is_linebreak c = (c \<in> set [CHR 0x0A, CHR 0x0B, CHR 0x0C, CHR 0x0D, CHR 0x1C, CHR 0x1D,
                               CHR 0x1E, CHR 0x85])"

definition is_space :: "char \<Rightarrow> bool" where
  "is_space c = (c \<in> set [CHR 0x09, CHR 0x0A, CHR 0x0B, CHR 0x0C, CHR 0x0D, CHR 0x1C, CHR 0x1D,
                          CHR 0x1E, CHR 0x1F, CHR 0x20, CHR 0x85, CHR 0xA0])"

fun splitlines_from :: "string \<Rightarrow> string \<Rightarrow> string list" where
  "splitlines_from cur [] = (if cur = [] then [] else [cur])"
| "splitlines_from cur [c] = (if is_linebreak c then [cur] else [cur @ [c]])"
| "splitlines_from cur (c # d # cs) =
     (if c = CHR 0x0D \<and> d = CHR 0x0A then cur # splitlines_from [] cs
      else if is_linebreak c then cur # splitlines_from [] (d # cs)
      else splitlines_from (cur @ [c]) (d # cs))"

definition splitlines :: "string \<Rightarrow> string list" where
  "splitlines s = splitlines_from [] s"

definition strip :: "string \<Rightarrow> string" where
  "strip s = rev (dropWhile is_space (rev (dropWhile is_space s)))"

fun join_lines :: "string list \<Rightarrow> string" where
  "join_lines [] = []"
| "join_lines [l] = l"
| "join_lines (l # m # ls) = l @ CHR 0x0A # join_lines (m # ls)"

definition read_logged_filenames :: "disk \<Rightarrow> string list" where
  "read_logged_filenames st =
     (case log_file st of
        None \<Rightarrow> []
      | Some text \<Rightarrow> map strip (filter (\<lambda>line. strip line \<noteq> []) (splitlines text)))"

definition write_logged_filenames :: "string list \<Rightarrow> disk \<Rightarrow> disk" where
  "write_logged_filenames files_list st =
     st\<lparr>log_file := Some (join_lines files_list @ [CHR 0x0A])\<rparr>"

text \<open>A file name that survives the log: not empty, no white space at either end, no
  character that ends a line.\<close>

definition clean_name :: "string \<Rightarrow> bool" where
  "clean_name l = (l \<noteq> [] \<and> \<not> is_space (hd l) \<and> \<not> is_space (last l)
      \<and> list_all (\<lambda>c. \<not> is_linebreak c) l)"

definition detect_update :: "env \<Rightarrow> string list \<Rightarrow> disk \<Rightarrow> bool \<times> string" where
  "detect_update E files_list st =
     (let prev = read_logged_filenames st; curr = files_list
      in if prev = curr then (False, ''No change, reading from feather...'')
         else (True, join_lines (unified_diff E prev curr)))"

section \<open>Ingestion\<close>

fun starts_with :: "string \<Rightarrow> string \<Rightarrow> bool" where
  "starts_with [] s = True"
| "starts_with (x # xs) [] = False"
| "starts_with (x # xs) (y # ys) = (x = y \<and> starts_with xs ys)"

fun contains :: "string \<Rightarrow> string \<Rightarrow> bool" where
  "contains sub [] = (sub = [])"
| "contains sub (c # cs) = (starts_with sub (c # cs) \<or> contains sub cs)"

text \<open>
  The body of the loop of \<^verbatim>\<open>_reload_from_source\<close> for one file name: the file is
  passed over (\<^verbatim>\<open>continue\<close>), reported as unmatched and passed over, kept as a
  frame for the concatenation, or the run ends in an exception. \<^verbatim>\<open>df.empty\<close> on the
  \<^verbatim>\<open>None\<close> that \<^verbatim>\<open>_read_file\<close> may return raises AttributeError.
\<close>

datatype outcome = Skip | Unmatched | Keep frame | Fatal py_error

definition process_file :: "env \<Rightarrow> schema list \<Rightarrow> string \<Rightarrow> string \<Rightarrow> outcome" where
  "process_file E reg folder file =
     (if contains ''.DS_Store'' file then Skip
      else case read_file E (folder @ ''/'' @ file) of
        Inl e \<Rightarrow> Fatal e
      | Inr None \<Rightarrow> Fatal AttributeError
      | Inr (Some df) \<Rightarrow>
          if empty_frame df then Skip
          else (case detect_schema_from_df reg df of
                  None \<Rightarrow> Unmatched
                | Some s \<Rightarrow>
                    (case normalizer s of
                       None \<Rightarrow> Keep df
                     | Some nrm \<Rightarrow> (case nrm df of Inl e \<Rightarrow> Fatal e | Inr df' \<Rightarrow> Keep df'))))"

fun load_loop ::
  "env \<Rightarrow> schema list \<Rightarrow> string \<Rightarrow> string list \<Rightarrow> frame list \<Rightarrow> disk
     \<Rightarrow> (py_error + frame list) \<times> disk" where
  "load_loop E reg folder [] df_list st = (Inr df_list, st)"
| "load_loop E reg folder (file # files) df_list st =
     (case process_file E reg folder file of
        Skip \<Rightarrow> load_loop E reg folder files df_list st
      | Unmatched \<Rightarrow>
          load_loop E reg folder files df_list
            (st\<lparr>printed := printed st @ [''Failed to match '' @ file]\<rparr>)
      | Keep df \<Rightarrow> load_loop E reg folder files (df_list @ [df]) st
      | Fatal e \<Rightarrow> (Inl e, st))"

text \<open>
  \<^verbatim>\<open>_reload_from_source\<close>: the log is written first, then the loop runs, then the
  frames kept are concatenated, sorted by \<^verbatim>\<open>Timestamp\<close>, freed of duplicate rows,
  relabelled and stored in the cache. An exception at any step ends the run there; one raised
  by the store after it has opened the cache file leaves that file truncated.
\<close>

definition reload_from_source ::
  "env \<Rightarrow> schema list \<Rightarrow> string \<Rightarrow> string list \<Rightarrow> disk \<Rightarrow> (py_error + frame) \<times> disk" where
  "reload_from_source E reg folder files_list st =
     (case load_loop E reg folder files_list [] (write_logged_filenames files_list st) of
        (Inl e, st1) \<Rightarrow> (Inl e, st1)
      | (Inr df_list, st1) \<Rightarrow>
          (case pd_concat df_list of
             Inl e \<Rightarrow> (Inl e, st1)
           | Inr df \<Rightarrow>
               (case sort_values ''Timestamp'' df of
                  Inl e \<Rightarrow> (Inl e, st1)
                | Inr df1 \<Rightarrow>
                    (case to_feather E (reset_index_drop (drop_duplicates df1)) of
                       Stored_ok \<Rightarrow>
                         (Inr (reset_index_drop (drop_duplicates df1)),
                          st1\<lparr>feather := Stored (reset_index_drop (drop_duplicates df1))\<rparr>)
                     | Raises_before_open e \<Rightarrow> (Inl e, st1)
                     | Raises_after_open e \<Rightarrow> (Inl e, st1\<lparr>feather := Truncated\<rparr>)))))"

text \<open>\<^verbatim>\<open>load_files\<close>; \<^verbatim>\<open>pd.read_feather\<close> raises when there is no cache file or
  when the file holds no frame.\<close>

definition load_files ::
  "env \<Rightarrow> schema list \<Rightarrow> string \<Rightarrow> disk \<Rightarrow> (py_error + frame) \<times> disk" where
  "load_files E reg folder st =
     (case listdir E folder of
        Inl e \<Rightarrow> (Inl e, st)
      | Inr files_list \<Rightarrow>
          (case detect_update E files_list st of
             (updated, message) \<Rightarrow>
               if updated
               then reload_from_source E reg folder files_list (st\<lparr>printed := printed st @ [message]\<rparr>)
               else (case feather st of
                       NoFile \<Rightarrow> (Inl FileNotFoundError, st\<lparr>printed := printed st @ [message]\<rparr>)
                     | Truncated \<Rightarrow>
                         (Inl (LibraryError ''ArrowInvalid''), st\<lparr>printed := printed st @ [message]\<rparr>)
                     | Stored df \<Rightarrow> (Inr df, st\<lparr>printed := printed st @ [message]\<rparr>))))"

section \<open>Tables in wide form\<close>

text \<open>
  A raw table in wide form, for a given parser of timestamps: distinct column labels, rows as
  long as the header, a \<^verbatim>\<open>Timestamp\<close> column, and in it only strings the parser
  accepts.
\<close>

definition wide_form :: "(string \<Rightarrow> int option) \<Rightarrow> frame \<Rightarrow> bool" where
  "wide_form parse df =
     (frame_ok df \<and> ''Timestamp'' \<in> set (columns df) \<and>
      list_all (\<lambda>r. list_all (\<lambda>p. fst p \<noteq> ''Timestamp'' \<or>
                    (case snd p of Str s \<Rightarrow> parse s \<noteq> None | _ \<Rightarrow> False))
                  (zip (columns df) (snd r))) (rows df))"

section \<open>Example inputs\<close>

definition example_parse :: "string \<Rightarrow> int option" where
  "example_parse s =
     (if s = ''2024-01-02 03:04:05.6'' then Some 1704164645600
      else if s = ''2024-01-02 03:04:04.0'' then Some 1704164644000
      else None)"

definition example_wide :: frame where
  "example_wide = \<lparr>columns = [''Timestamp'', ''Flow''],
     rows = [(Num 0, [Str ''2024-01-02 03:04:05.6'', Num 7])]\<rparr>"

definition example_other :: frame where
  "example_other = \<lparr>columns = [''Flow''], rows = [(Num 0, [Num 7])]\<rparr>"

definition long_two_rows :: frame where
  "long_two_rows = \<lparr>columns = [''VarName'', ''TimeString'', ''VarValue''],
     rows = [(Num 0, [Str ''X'', Str ''2024-01-02 03:04:05.6'', Num 1]),
             (Num 1, [Str ''Y'', Str ''2024-01-02 03:04:05.6'', Num 2])]\<rparr>"

definition example_bad :: frame where
  "example_bad = \<lparr>columns = [''Timestamp'', ''Flow''],
     rows = [(Num 0, [Str ''2024-99-99 03:04:05.6'', Num 8])]\<rparr>"

definition example_more :: frame where
  "example_more = \<lparr>columns = [''Timestamp'', ''Flow''],
     rows = [(Num 0, [Str ''2024-01-02 03:04:05.6'', Num 7]),
             (Num 1, [Str ''2024-01-02 03:04:04.0'', Num 5]),
             (Num 2, [Str ''2024-01-02 03:04:05.6'', Num 9])]\<rparr>"

definition example_text :: frame where
  "example_text = \<lparr>columns = [''Timestamp'', ''Flow''],
     rows = [(Num 0, [Str ''2024-01-02 03:04:04.0'', Str ''off''])]\<rparr>"

text \<open>A store that refuses, after opening the file, a frame with a column that mixes
  strings and numbers, as the Arrow conversion does.\<close>

definition example_store :: "frame \<Rightarrow> store_outcome" where
  "example_store df =
     (if list_all (\<lambda>k. comparable (column_values k df)) [0..<length (columns df)]
      then Stored_ok else Raises_after_open (LibraryError ''ArrowTypeError''))"


definition example_env :: env where
  "example_env =
     \<lparr>read_csv_nrows = (\<lambda>n p. if p = ''Online Data/a.txt''
                         then Inr (example_wide\<lparr>rows := take n (rows example_wide)\<rparr>)
                         else Inl (LibraryError ''UnicodeDecodeError'')),
      read_csv_utf16_tab = (\<lambda>p. if p = ''Online Data/c.txt'' then Inr long_two_rows
                         else Inl (LibraryError ''UnicodeError'')),
      read_csv = (\<lambda>p. if p = ''Online Data/b.csv'' then Inr example_bad
                         else if p = ''Online Data/d.csv'' then Inr example_more
                         else if p = ''Online Data/e.csv'' then Inr example_text
                         else if p = ''Online Data/o.csv'' then Inr example_other
                         else Inl FileNotFoundError),
      to_feather = example_store,
      unified_diff = (\<lambda>prev curr. map ((#) CHR ''-'') prev @ map ((#) CHR ''+'') curr),
      listdir = (\<lambda>folder. Inr [''d.csv'', ''a.txt''])\<rparr>"

definition example_disk :: disk where
  "example_disk = \<lparr>log_file = Some (''a.txt'' @ [CHR 0x0A] @ ''b.csv'' @ [CHR 0x0A]),
     feather = NoFile, printed = []\<rparr>"

definition example_result :: frame where
  "example_result = \<lparr>columns = [''Timestamp'', ''Flow''],
     rows = [(Num 0, [Time 1704164644000, Num 5]),
             (Num 1, [Time 1704164645600, Num 7]),
             (Num 2, [Time 1704164645600, Num 9])]\<rparr>"


section \<open>Detection: first match wins\<close>

lemma detect_is_find: "detect_schema_from_df reg df = List.find (matches df) reg"
  by (induction reg) (auto simp: matches_def split: sum.splits bool.splits)

text \<open>
  Claim C1. For every registry and every table, detection returns the first descriptor in
  registration order whose predicate is true on the table: the result is a descriptor exactly
  when it stands at some position of the registry, its predicate is true, and no predicate at
  an earlier position is true. It returns None exactly when no predicate of the registry is
  true on the table.
\<close>

theorem detect_first_match:
  "(detect_schema_from_df reg df = Some s \<longleftrightarrow>
      (\<exists>i < length reg. reg ! i = s \<and> matches df s \<and> (\<forall>j < i. \<not> matches df (reg ! j))))
   \<and> (detect_schema_from_df reg df = None \<longleftrightarrow> (\<forall>s \<in> set reg. \<not> matches df s))"
proof -
  have "(List.find (matches df) reg = Some s) =
      (\<exists>i < length reg. reg ! i = s \<and> matches df s \<and> (\<forall>j < i. \<not> matches df (reg ! j)))"
    by (auto simp: find_Some_iff)
  moreover have "(List.find (matches df) reg = None) = (\<forall>s \<in> set reg. \<not> matches df s)"
    by (auto simp: find_None_iff)
  ultimately show ?thesis
    by (simp only: detect_is_find)
qed

lemma detect_example_wide:
  "detect_schema_from_df (SCHEMA_REGISTRY example_parse) example_wide
     = Some (SCHEMA_REGISTRY example_parse ! 1)"
  by (simp add: SCHEMA_REGISTRY_def example_wide_def schema_1_pred_def schema_2_pred_def
        get_column_def date_format_match_def full_match_def date_format_def is_digit_def)

lemma detect_example_other:
  "detect_schema_from_df (SCHEMA_REGISTRY example_parse) example_other = None"
  by (simp add: SCHEMA_REGISTRY_def example_other_def schema_1_pred_def schema_2_pred_def
        get_column_def)

theorem detect_first_match_witness:
  "(\<exists>i < length (SCHEMA_REGISTRY example_parse).
      SCHEMA_REGISTRY example_parse ! i = SCHEMA_REGISTRY example_parse ! 1
      \<and> matches example_wide (SCHEMA_REGISTRY example_parse ! 1)
      \<and> (\<forall>j < i. \<not> matches example_wide (SCHEMA_REGISTRY example_parse ! j)))
   \<and> \<not> matches example_other (SCHEMA_REGISTRY example_parse ! 0)
   \<and> \<not> matches example_other (SCHEMA_REGISTRY example_parse ! 1)"
proof -
  have m: "SCHEMA_REGISTRY example_parse ! 0 \<in> set (SCHEMA_REGISTRY example_parse)"
      "SCHEMA_REGISTRY example_parse ! 1 \<in> set (SCHEMA_REGISTRY example_parse)"
    by (simp_all add: SCHEMA_REGISTRY_def)
  show ?thesis
    using detect_first_match [of "SCHEMA_REGISTRY example_parse" example_wide
            "SCHEMA_REGISTRY example_parse ! 1"]
          detect_first_match [of "SCHEMA_REGISTRY example_parse" example_other]
          detect_example_wide detect_example_other m
    by blast
qed

section \<open>Detection: a predicate that raises\<close>

text \<open>
  Claim C9. Take any registry and any descriptor in it whose predicate raises on every table
  (whichever exception, \<open>ex t\<close> on the table \<open>t\<close>). Replacing that predicate by one that
  returns false on every table leaves the result of detection the same, on every table.
\<close>

theorem raising_predicate_same_as_false:
  "detect_schema_from_df (pre @ s\<lparr>predicate := \<lambda>t. Inl (ex t)\<rparr> # post) df
   = detect_schema_from_df (pre @ s\<lparr>predicate := \<lambda>t. Inr False\<rparr> # post) df"
  by (induction pre) (auto split: sum.splits bool.splits)

theorem raising_predicate_same_as_false_witness:
  "detect_schema_from_df
     ([] @ (SCHEMA_REGISTRY example_parse ! 0)\<lparr>predicate := \<lambda>t. Inl KeyError\<rparr>
        # [SCHEMA_REGISTRY example_parse ! 1]) example_wide
   = Some (SCHEMA_REGISTRY example_parse ! 1)
   \<and> detect_schema_from_df
     ([] @ (SCHEMA_REGISTRY example_parse ! 0)\<lparr>predicate := \<lambda>t. Inr False\<rparr>
        # [SCHEMA_REGISTRY example_parse ! 1]) example_wide
   = Some (SCHEMA_REGISTRY example_parse ! 1)"
proof -
  have "detect_schema_from_df
     ([] @ (SCHEMA_REGISTRY example_parse ! 0)\<lparr>predicate := \<lambda>t. Inr False\<rparr>
        # [SCHEMA_REGISTRY example_parse ! 1]) example_wide
   = Some (SCHEMA_REGISTRY example_parse ! 1)"
    by (simp add: SCHEMA_REGISTRY_def example_wide_def schema_2_pred_def
        get_column_def date_format_match_def full_match_def date_format_def is_digit_def)
  then show ?thesis
    using raising_predicate_same_as_false [where pre = "[]"
        and s = "SCHEMA_REGISTRY example_parse ! 0" and ex = "\<lambda>t. KeyError"
        and post = "[SCHEMA_REGISTRY example_parse ! 1]" and df = example_wide]
    by simp
qed

section \<open>The long-form normalizer\<close>

text \<open>
  Claim C3, at the table with exactly the two rows (t1, X, 1) and (t1, Y, 2). The long-form
  predicate accepts the table and the long-form normalizer returns no table for it: after the
  pivot the only columns are X and Y, and \<^verbatim>\<open>df.drop(columns=["$RT_DIS$"])\<close> raises
  KeyError. A run that reads the table from a file ends in that exception.
\<close>

theorem long_form_two_rows_raises:
  "schema_1_pred long_two_rows = Inr True
   \<and> schema_1_normalize example_parse long_two_rows = Inl KeyError
   \<and> process_file example_env (SCHEMA_REGISTRY example_parse) ''Online Data'' ''c.txt''
       = Fatal KeyError"
  by (simp add: long_two_rows_def schema_1_pred_def schema_1_normalize_def pivot_iontech_def
        pivot_def get_column_def drop_column_def rename_def rename_table_def Let_def
        process_file_def read_file_def splitext_ext_def basename_def empty_frame_def
        example_env_def SCHEMA_REGISTRY_def)

section \<open>The loader\<close>

text \<open>
  Claim C7, at a path with an extension the loader has no strategy for. \<^verbatim>\<open>_read_file\<close>
  raises nothing there: it returns \<^verbatim>\<open>None\<close>. The exception comes later and is no
  format error: the ingestion loop asks \<^verbatim>\<open>None\<close> for \<^verbatim>\<open>.empty\<close>.
\<close>

theorem read_file_unknown_extension:
  "read_file E ''Online Data/notes.md'' = Inr None
   \<and> process_file E reg ''Online Data'' ''notes.md'' = Fatal AttributeError"
  by (simp add: process_file_def read_file_def splitext_ext_def basename_def)

text \<open>
  Claim C10. Suppose the library honours \<^verbatim>\<open>nrows\<close> (a read with \<^verbatim>\<open>nrows=n\<close>
  gives at most n rows) and the path has the extension \<^verbatim>\<open>.txt\<close>. When the first read
  (\<^verbatim>\<open>nrows=4\<close>) succeeds, the loader returns its frame, which has at most 4 rows. When
  the first read raises, and only then, the loader's result is that of the second, full read.
\<close>

theorem txt_first_strategy:
  assumes "\<And>n q d. read_csv_nrows E n q = Inr d \<Longrightarrow> length (rows d) \<le> n"
    and "splitext_ext p = ''.txt''"
  shows "(read_csv_nrows E 4 p = Inr df \<longrightarrow>
            read_file E p = Inr (Some df) \<and> length (rows df) \<le> 4)
       \<and> (read_csv_nrows E 4 p = Inl e \<longrightarrow>
            read_file E p =
              (case read_csv_utf16_tab E p of Inr d \<Rightarrow> Inr (Some d) | Inl e' \<Rightarrow> Inl e'))"
  using assms by (auto simp: read_file_def)

theorem txt_first_strategy_witness:
  "splitext_ext ''Online Data/a.txt'' = ''.txt''
   \<and> read_csv_nrows example_env 4 ''Online Data/a.txt'' = Inr example_wide
   \<and> read_file example_env ''Online Data/a.txt'' = Inr (Some example_wide)
   \<and> length (rows example_wide) \<le> 4
   \<and> splitext_ext ''Online Data/c.txt'' = ''.txt''
   \<and> read_csv_nrows example_env 4 ''Online Data/c.txt'' = Inl (LibraryError ''UnicodeDecodeError'')
   \<and> read_file example_env ''Online Data/c.txt'' = Inr (Some long_two_rows)"
proof -
  have c: "\<And>n q d. read_csv_nrows example_env n q = Inr d \<Longrightarrow> length (rows d) \<le> n"
    by (auto simp: example_env_def split: if_splits)
  have xa: "splitext_ext ''Online Data/a.txt'' = ''.txt''"
    and xc: "splitext_ext ''Online Data/c.txt'' = ''.txt''"
    by (simp_all add: splitext_ext_def basename_def)
  have ra: "read_csv_nrows example_env 4 ''Online Data/a.txt'' = Inr example_wide"
    by (simp add: example_env_def example_wide_def)
  have rc: "read_csv_nrows example_env 4 ''Online Data/c.txt''
      = Inl (LibraryError ''UnicodeDecodeError'')"
    by (simp add: example_env_def)
  have uc: "read_csv_utf16_tab example_env ''Online Data/c.txt'' = Inr long_two_rows"
    by (simp add: example_env_def)
  show ?thesis
    using txt_first_strategy [of example_env "''Online Data/a.txt''" example_wide, OF c xa]
      txt_first_strategy [of example_env "''Online Data/c.txt''" _
        "LibraryError ''UnicodeDecodeError''", OF c xc] xa xc ra rc uc
    by simp
qed

section \<open>Change detection\<close>

lemma splitlines_line:
  "list_all (\<lambda>c. \<not> is_linebreak c) l
   \<Longrightarrow> splitlines_from cur (l @ CHR 0x0A # rest) = (cur @ l) # splitlines_from [] rest"
proof (induction l arbitrary: cur)
  case Nil
  show ?case by (cases rest) (simp_all add: is_linebreak_def)
next
  case (Cons c l)
  obtain d cs where dc: "l @ CHR 0x0A # rest = d # cs"
    by (cases "l @ CHR 0x0A # rest") auto
  from Cons.prems have nb: "\<not> is_linebreak c" and rest: "list_all (\<lambda>c. \<not> is_linebreak c) l"
    by simp_all
  from nb have ncr: "c \<noteq> CHR 0x0D" by (auto simp: is_linebreak_def)
  have "splitlines_from cur ((c # l) @ CHR 0x0A # rest) = splitlines_from cur (c # d # cs)"
    by (simp add: dc)
  also have "\<dots> = splitlines_from (cur @ [c]) (d # cs)"
    using nb ncr by simp
  also have "\<dots> = ((cur @ [c]) @ l) # splitlines_from [] rest"
    using Cons.IH [OF rest, of "cur @ [c]"] by (simp add: dc)
  finally show ?case by simp
qed

lemma splitlines_join:
  "list_all clean_name L \<Longrightarrow> L \<noteq> []
   \<Longrightarrow> splitlines_from [] (join_lines L @ [CHR 0x0A]) = L"
proof (induction L rule: join_lines.induct)
  case 1
  then show ?case by simp
next
  case (2 l)
  then have "list_all (\<lambda>c. \<not> is_linebreak c) l" by (simp add: clean_name_def)
  from splitlines_line [OF this, of "[]" "[]"] show ?case
    by (simp del: splitlines_from.simps add: splitlines_from.simps(1))
next
  case (3 l m ls)
  then have nb: "list_all (\<lambda>c. \<not> is_linebreak c) l" by (simp add: clean_name_def)
  from 3 have ih: "splitlines_from [] (join_lines (m # ls) @ [CHR 0x0A]) = m # ls"
    by (simp del: splitlines_from.simps)
  have "join_lines (l # m # ls) @ [CHR 0x0A] = l @ CHR 0x0A # (join_lines (m # ls) @ [CHR 0x0A])"
    by simp
  then have "splitlines_from [] (join_lines (l # m # ls) @ [CHR 0x0A])
      = ([] @ l) # splitlines_from [] (join_lines (m # ls) @ [CHR 0x0A])"
    by (simp only: splitlines_line [OF nb])
  with ih show ?case by (simp del: splitlines_from.simps)
qed

lemma strip_clean: "clean_name l \<Longrightarrow> strip l = l"
proof -
  assume c: "clean_name l"
  then have ne: "l \<noteq> []" and h: "\<not> is_space (hd l)" and t: "\<not> is_space (last l)"
    by (simp_all add: clean_name_def)
  from ne h have 1: "dropWhile is_space l = l" by (cases l) simp_all
  from ne t have "rev l \<noteq> []" and "\<not> is_space (hd (rev l))"
    by (simp_all add: hd_rev)
  then have 2: "dropWhile is_space (rev l) = rev l"
    by (cases "rev l") simp_all
  show ?thesis by (simp add: strip_def 1 2)
qed

lemma read_after_write:
  assumes "list_all clean_name L"
  shows "read_logged_filenames (write_logged_filenames L st) = L"
proof (cases "L = []")
  case True
  then show ?thesis
    by (simp add: read_logged_filenames_def write_logged_filenames_def splitlines_def
        strip_def is_linebreak_def)
next
  case False
  from assms have s: "\<forall>l \<in> set L. strip l = l" and n: "\<forall>l \<in> set L. l \<noteq> []"
    by (auto simp: list_all_iff strip_clean clean_name_def)
  then have "filter (\<lambda>line. strip line \<noteq> []) L = L" by (auto intro: filter_True)
  moreover from s have "map strip L = L" by (simp add: map_idI)
  ultimately show ?thesis
    using splitlines_join [OF assms False]
    by (simp del: splitlines_from.simps
        add: read_logged_filenames_def write_logged_filenames_def splitlines_def)
qed

text \<open>
  Claim C6. \<^verbatim>\<open>_detect_update\<close> reports unchanged exactly when the listing read from
  the log equals the current listing as a sequence. With no log file the listing read is
  empty; after \<^verbatim>\<open>_write_logged_filenames\<close> has stored a listing of clean names, the
  listing read is the one stored. When the log reads [a, b] with a and b different, the
  current listing [b, a] is reported as changed.
\<close>

theorem detect_update_unchanged_iff:
  "(fst (detect_update E files_list st) = False \<longleftrightarrow> read_logged_filenames st = files_list)
   \<and> (log_file st = None \<longrightarrow> read_logged_filenames st = [])
   \<and> (list_all clean_name prev \<longrightarrow>
        read_logged_filenames (write_logged_filenames prev st) = prev)
   \<and> (read_logged_filenames st = [a, b] \<and> a \<noteq> b \<longrightarrow> fst (detect_update E [b, a] st) = True)"
  by (auto simp: detect_update_def Let_def read_logged_filenames_def [of st] read_after_write)

theorem detect_update_unchanged_iff_witness:
  "read_logged_filenames example_disk = [''a.txt'', ''b.csv'']
   \<and> fst (detect_update example_env [''a.txt'', ''b.csv''] example_disk) = False
   \<and> fst (detect_update example_env [''b.csv'', ''a.txt''] example_disk) = True
   \<and> read_logged_filenames (example_disk\<lparr>log_file := None\<rparr>) = []"
proof -
  have c: "list_all clean_name [''a.txt'', ''b.csv'']"
    by (simp add: clean_name_def is_space_def is_linebreak_def)
  have w: "write_logged_filenames [''a.txt'', ''b.csv''] example_disk = example_disk"
    by (simp add: write_logged_filenames_def example_disk_def)
  show ?thesis
    using c w
      detect_update_unchanged_iff [where E = example_env and files_list = "[''a.txt'', ''b.csv'']"
        and st = example_disk and prev = "[''a.txt'', ''b.csv'']"
        and a = "''a.txt''" and b = "''b.csv''"]
      detect_update_unchanged_iff [where E = example_env and files_list = "[]"
        and st = "example_disk\<lparr>log_file := None\<rparr>" and prev = "[]"]
    by simp
qed

section \<open>Ingestion that keeps no frame\<close>

text \<open>
  Claim C2, at a folder whose only entry is \<^verbatim>\<open>.DS_Store\<close>: no file yields a table,
  the list handed to \<^verbatim>\<open>pd.concat\<close> is empty, and the run ends in ValueError after
  the log has been written. No table is returned, neither by \<^verbatim>\<open>_reload_from_source\<close>
  nor by \<^verbatim>\<open>load_files\<close> on a first run over such a folder.
\<close>

theorem reload_nothing_kept:
  "reload_from_source E reg folder [''.DS_Store''] st
     = (Inl ValueError, st\<lparr>log_file := Some (''.DS_Store'' @ [CHR 0x0A])\<rparr>)
   \<and> fst (load_files (example_env\<lparr>listdir := \<lambda>d. Inr [''.DS_Store'']\<rparr>) reg folder
            \<lparr>log_file = None, feather = NoFile, printed = []\<rparr>) = Inl ValueError"
  by (simp add: load_files_def detect_update_def read_logged_filenames_def
        reload_from_source_def process_file_def write_logged_filenames_def pd_concat_def)

section \<open>Fatal errors and the cache\<close>


















section \<open>The wide-form normalizer\<close>

lemma get_column_position:
  "get_column c df = Inr k \<Longrightarrow> k < length (columns df) \<and> columns df ! k = c"
proof -
  assume a: "get_column c df = Inr k"
  then have "filter (\<lambda>i. columns df ! i = c) [0..<length (columns df)] = [k]"
    by (auto simp: get_column_def split: list.splits)
  then have "k \<in> set (filter (\<lambda>i. columns df ! i = c) [0..<length (columns df)])"
    by simp
  then show ?thesis by simp
qed

lemma get_column_distinct:
  assumes "distinct (columns df)" "c \<in> set (columns df)"
  shows "\<exists>k. get_column c df = Inr k"
proof -
  from assms(2) obtain k where k: "k < length (columns df)" "columns df ! k = c"
    by (auto simp: in_set_conv_nth)
  let ?f = "filter (\<lambda>i. columns df ! i = c) [0..<length (columns df)]"
  have "set ?f = {k}"
    using k assms(1) by (auto simp: nth_eq_iff_index_eq)
  moreover have "sorted ?f" "distinct ?f" by (simp_all add: sorted_wrt_filter)
  ultimately have "?f = [k]"
    by (intro sorted_distinct_set_unique) simp_all
  then show ?thesis by (simp add: get_column_def)
qed

lemma to_datetime_all2:
  "to_datetime parse cs = Inr ts \<Longrightarrow> list_all2 (\<lambda>c t. to_datetime_cell parse c = Inr t) cs ts"
proof (induction cs arbitrary: ts)
  case Nil
  then show ?case by simp
next
  case (Cons c cs)
  from Cons.prems obtain t ts' where "to_datetime_cell parse c = Inr t"
      "to_datetime parse cs = Inr ts'" "ts = t # ts'"
    by (auto split: sum.splits)
  with Cons.IH show ?case by simp
qed

lemma to_datetime_strings:
  assumes "\<forall>c \<in> set cs. \<exists>s t. c = Str s \<and> parse s = Some t"
  shows "\<exists>ts. to_datetime parse cs = Inr ts"
  using assms
proof (induction cs)
  case Nil
  then show ?case by simp
next
  case (Cons c cs)
  then obtain ts where "to_datetime parse cs = Inr ts" by auto
  moreover from Cons.prems obtain s t where "c = Str s" "parse s = Some t" by auto
  ultimately show ?case by simp
qed

lemma wide_form_cell:
  assumes "wide_form parse df" "r \<in> set (rows df)" "j < length (columns df)"
    "columns df ! j = ''Timestamp''"
  shows "\<exists>s t. snd r ! j = Str s \<and> parse s = Some t"
proof -
  from assms(1,2) have len: "length (snd r) = length (columns df)"
    by (auto simp: wide_form_def frame_ok_def list_all_iff)
  from assms(1,2) have "\<forall>p \<in> set (zip (columns df) (snd r)).
      fst p \<noteq> ''Timestamp'' \<or> (case snd p of Str s \<Rightarrow> parse s \<noteq> None | _ \<Rightarrow> False)"
    by (auto simp: wide_form_def list_all_iff)
  moreover have "(columns df ! j, snd r ! j) \<in> set (zip (columns df) (snd r))"
    using assms(3) len by (auto simp: in_set_zip)
  ultimately have "case snd r ! j of Str s \<Rightarrow> parse s \<noteq> None | _ \<Rightarrow> False"
    using assms(4) by fastforce
  then show ?thesis by (cases "snd r ! j") auto
qed

text \<open>
  Claim C8. On every raw table in wide form the wide-form normalizer returns a table with the
  same column labels in the same order and the same rows in the same order, under the same
  index labels; in every row the cell under \<^verbatim>\<open>Timestamp\<close> is the parsed instant of the
  string that stood there, and every other cell is the one that stood there.
\<close>

theorem wide_normalize_only_timestamp:
  assumes "wide_form parse df"
  shows "\<exists>df'. schema_2_normalize parse df = Inr df'
     \<and> columns df' = columns df
     \<and> map fst (rows df') = map fst (rows df)
     \<and> (\<forall>i < length (rows df). \<forall>j < length (columns df).
           length (snd (rows df' ! i)) = length (columns df) \<and>
           (if columns df ! j = ''Timestamp''
            then \<exists>s t. snd (rows df ! i) ! j = Str s \<and> parse s = Some t
                    \<and> snd (rows df' ! i) ! j = Time t
            else snd (rows df' ! i) ! j = snd (rows df ! i) ! j))"
proof -
  from assms have ok: "frame_ok df" and mem: "''Timestamp'' \<in> set (columns df)"
    by (simp_all add: wide_form_def)
  from ok have dist: "distinct (columns df)"
    and len: "\<And>r. r \<in> set (rows df) \<Longrightarrow> length (snd r) = length (columns df)"
    by (auto simp: frame_ok_def list_all_iff)
  from get_column_distinct [OF dist mem] obtain k where k: "get_column ''Timestamp'' df = Inr k"
    by blast
  from get_column_position [OF k] have kl: "k < length (columns df)"
    and kc: "columns df ! k = ''Timestamp''" by simp_all
  have strs: "\<forall>c \<in> set (column_values k df). \<exists>s t. c = Str s \<and> parse s = Some t"
    using wide_form_cell [OF assms _ kl kc] by (auto simp: column_values_def)
  from to_datetime_strings [OF strs] obtain ts where
      ts: "to_datetime parse (column_values k df) = Inr ts" by blast
  then have all2: "list_all2 (\<lambda>c t. to_datetime_cell parse c = Inr t) (column_values k df) ts"
    by (simp add: to_datetime_all2)
  then have lts: "length ts = length (rows df)"
    by (auto simp: list_all2_lengthD column_values_def dest: list_all2_lengthD)
  let ?df' = "set_column k ts df"
  have res: "schema_2_normalize parse df = Inr ?df'"
    by (simp add: schema_2_normalize_def parse_timestamp_column_def k ts)
  have cols: "columns ?df' = columns df" by (simp add: set_column_def)
  have labels: "map fst (rows ?df') = map fst (rows df)"
    using lts by (auto simp: set_column_def intro!: nth_equalityI)
  have cells: "\<forall>i < length (rows df). \<forall>j < length (columns df).
           length (snd (rows ?df' ! i)) = length (columns df) \<and>
           (if columns df ! j = ''Timestamp''
            then \<exists>s t. snd (rows df ! i) ! j = Str s \<and> parse s = Some t
                    \<and> snd (rows ?df' ! i) ! j = Time t
            else snd (rows ?df' ! i) ! j = snd (rows df ! i) ! j)"
  proof (intro allI impI)
    fix i j assume i: "i < length (rows df)" and j: "j < length (columns df)"
    have row: "rows ?df' ! i = (fst (rows df ! i), (snd (rows df ! i))[k := ts ! i])"
      using i lts by (simp add: set_column_def)
    have li: "length (snd (rows df ! i)) = length (columns df)"
      using len i by simp
    have conv: "to_datetime_cell parse (snd (rows df ! i) ! k) = Inr (ts ! i)"
      using all2 i by (auto simp: list_all2_conv_all_nth column_values_def)
    from wide_form_cell [OF assms _ kl kc, of "rows df ! i"] i
    obtain s t where st: "snd (rows df ! i) ! k = Str s" "parse s = Some t" by auto
    with conv have tsi: "ts ! i = Time t" by simp
    have jk: "columns df ! j = ''Timestamp'' \<longleftrightarrow> j = k"
      using dist j kl kc nth_eq_iff_index_eq by metis
    show "length (snd (rows ?df' ! i)) = length (columns df) \<and>
           (if columns df ! j = ''Timestamp''
            then \<exists>s t. snd (rows df ! i) ! j = Str s \<and> parse s = Some t
                    \<and> snd (rows ?df' ! i) ! j = Time t
            else snd (rows ?df' ! i) ! j = snd (rows df ! i) ! j)"
      using row li st tsi jk kl by auto
  qed
  from res cols labels cells show ?thesis by blast
qed

theorem wide_normalize_only_timestamp_witness:
  "wide_form example_parse example_more
   \<and> (\<exists>df'. schema_2_normalize example_parse example_more = Inr df'
          \<and> columns df' = [''Timestamp'', ''Flow'']
          \<and> map fst (rows df') = [Num 0, Num 1, Num 2])"
proof -
  have w: "wide_form example_parse example_more"
    by (simp add: wide_form_def frame_ok_def example_more_def example_parse_def)
  from wide_normalize_only_timestamp [OF w] show ?thesis
    using w by (auto simp: example_more_def)
qed

section \<open>The table a run returns\<close>

lemma drop_dups_subset: "set (drop_dups_from seen rs) \<subseteq> set rs"
  by (induction rs arbitrary: seen) auto

lemma drop_dups_cells: "snd ` set (drop_dups_from seen rs) = snd ` set rs - set seen"
  by (induction rs arbitrary: seen) auto

lemma drop_dups_distinct: "distinct (map snd (drop_dups_from seen rs))"
proof (induction rs arbitrary: seen)
  case Nil
  then show ?case by simp
next
  case (Cons r rs)
  have "snd r \<notin> snd ` set (drop_dups_from (snd r # seen) rs)"
    by (simp add: drop_dups_cells)
  with Cons show ?case by simp
qed

lemma drop_dups_sorted: "sorted_wrt P rs \<Longrightarrow> sorted_wrt P (drop_dups_from seen rs)"
proof (induction rs arbitrary: seen)
  case Nil
  then show ?case by simp
next
  case (Cons r rs)
  from Cons.prems have "\<forall>x \<in> set (drop_dups_from (snd r # seen) rs). P r x"
    using drop_dups_subset [of "snd r # seen" rs] by auto
  with Cons show ?case by simp
qed

lemma map_snd_range_index: "map snd (range_index rs) = rs"
  by (simp add: range_index_def)

lemma single_kind:
  assumes "comparable cs" "a \<in> set cs" "b \<in> set cs" "a \<noteq> NA" "b \<noteq> NA"
  shows "cell_kind a = cell_kind b"
proof -
  let ?K = "set (map cell_kind (filter (\<lambda>c. c \<noteq> NA) cs))"
  from assms(1) have "card ?K \<le> 1"
    by (simp only: comparable_def length_remdups_card_conv)
  moreover have "cell_kind a \<in> ?K" "cell_kind b \<in> ?K"
    using assms by auto
  ultimately show ?thesis
    by (metis List.finite_set card_le_Suc0_iff_eq One_nat_def)
qed

lemma key_le_cell_le:
  assumes "comparable cs" "a \<in> set cs" "b \<in> set cs" "order_key a \<le> order_key b"
  shows "cell_le a b"
proof (cases "a = NA \<or> b = NA")
  case True
  with assms(4) show ?thesis by (cases a; cases b) auto
next
  case False
  with single_kind [OF assms(1-3)] have "cell_kind a = cell_kind b" by simp
  with False assms(4) show ?thesis by (cases a; cases b) auto
qed

lemma sort_values_result:
  assumes "sort_values c df = Inr df1"
  shows "\<exists>k. get_column c df = Inr k \<and> comparable (column_values k df)
          \<and> df1 = df\<lparr>rows := sort_key (\<lambda>r. order_key (snd r ! k)) (rows df)\<rparr>"
  using assms by (auto simp: sort_values_def split: sum.splits if_splits)

lemma sorted_rows_by_cell:
  assumes "comparable (map (\<lambda>r. snd r ! k) rs)"
  shows "sorted_wrt (\<lambda>r r'. cell_le (snd r ! k) (snd r' ! k))
           (sort_key (\<lambda>r. order_key (snd r ! k)) rs)"
proof -
  let ?s = "sort_key (\<lambda>r. order_key (snd r ! k)) rs"
  have "sorted (map (\<lambda>r. order_key (snd r ! k)) ?s)"
    by (rule sorted_sort_key)
  then have "sorted_wrt (\<lambda>r r'. order_key (snd r ! k) \<le> order_key (snd r' ! k)) ?s"
    by (simp add: sorted_map)
  moreover have "\<And>r r'. r \<in> set ?s \<Longrightarrow> r' \<in> set ?s \<Longrightarrow>
      order_key (snd r ! k) \<le> order_key (snd r' ! k) \<Longrightarrow> cell_le (snd r ! k) (snd r' ! k)"
    by (rule key_le_cell_le [OF assms]) auto
  ultimately show ?thesis
    by (rule sorted_wrt_mono_rel [rotated])
qed

text \<open>
  Claim C5. Every run of \<^verbatim>\<open>_reload_from_source\<close> that returns a table returns one
  that has a \<^verbatim>\<open>Timestamp\<close> column whose cells ascend from row to row (missing instants
  last), that has no two rows with the same cells in every column, and whose rows are, as a
  set, the rows of the concatenation of the frames kept: a row is dropped only when a row
  with the same cells in every column stays, so rows that share a timestamp and differ in
  another column all stay.
\<close>

theorem reload_sorted_distinct:
  assumes "reload_from_source E reg folder files st = (Inr df, st')"
  shows "(\<exists>k. get_column ''Timestamp'' df = Inr k \<and> sorted_wrt cell_le (column_values k df))
    \<and> distinct (map snd (rows df))
    \<and> (\<exists>dfs st1 cat.
          load_loop E reg folder files [] (write_logged_filenames files st) = (Inr dfs, st1)
          \<and> pd_concat dfs = Inr cat
          \<and> set (map snd (rows df)) = set (map snd (rows cat)))"
proof -
  obtain r st1 where l:
      "load_loop E reg folder files [] (write_logged_filenames files st) = (r, st1)"
    by (cases "load_loop E reg folder files [] (write_logged_filenames files st)")
  with assms obtain dfs where r: "r = Inr dfs"
    by (cases r) (auto simp: reload_from_source_def)
  with assms l obtain cat where c: "pd_concat dfs = Inr cat"
    by (cases "pd_concat dfs") (auto simp: reload_from_source_def)
  with assms l r obtain df1 where s: "sort_values ''Timestamp'' cat = Inr df1"
    by (cases "sort_values ''Timestamp'' cat") (auto simp: reload_from_source_def)
  from assms l r c s have df: "df = reset_index_drop (drop_duplicates df1)"
    by (cases "to_feather E (reset_index_drop (drop_duplicates df1))")
       (auto simp: reload_from_source_def)
  from sort_values_result [OF s] obtain k where
      k: "get_column ''Timestamp'' cat = Inr k"
      and cmp: "comparable (column_values k cat)"
      and df1: "df1 = cat\<lparr>rows := sort_key (\<lambda>r. order_key (snd r ! k)) (rows cat)\<rparr>"
    by blast
  let ?srt = "sort_key (\<lambda>r. order_key (snd r ! k)) (rows cat)"
  have cells: "map snd (rows df) = map snd (drop_dups_from [] ?srt)"
    by (simp add: df df1 reset_index_drop_def drop_duplicates_def map_snd_range_index)
  have col: "get_column ''Timestamp'' df = Inr k"
    by (simp add: df df1 reset_index_drop_def drop_duplicates_def get_column_def k [unfolded get_column_def])
  have "sorted_wrt (\<lambda>r r'. cell_le (snd r ! k) (snd r' ! k)) ?srt"
    using cmp by (intro sorted_rows_by_cell) (simp add: column_values_def)
  then have "sorted_wrt (\<lambda>r r'. cell_le (snd r ! k) (snd r' ! k)) (drop_dups_from [] ?srt)"
    by (rule drop_dups_sorted)
  then have "sorted_wrt cell_le (map (\<lambda>c. c ! k) (map snd (drop_dups_from [] ?srt)))"
    by (simp add: sorted_wrt_map)
  then have srt: "sorted_wrt cell_le (column_values k df)"
    by (simp add: column_values_def comp_def flip: cells)
  have dis: "distinct (map snd (rows df))"
    by (simp only: cells drop_dups_distinct)
  have "set (map snd (rows df)) = snd ` set ?srt"
    by (simp only: cells set_map drop_dups_cells) simp
  then have same: "set (map snd (rows df)) = set (map snd (rows cat))"
    by simp
  from col srt dis l r c same show ?thesis by blast
qed

lemma reload_example:
  "reload_from_source example_env (SCHEMA_REGISTRY example_parse) ''Online Data''
      [''d.csv'', ''.DS_Store'', ''a.txt''] example_disk
   = (Inr example_result,
      \<lparr>log_file = Some (''d.csv'' @ [CHR 0x0A] @ ''.DS_Store'' @ [CHR 0x0A] @ ''a.txt'' @ [CHR 0x0A]),
       feather = Stored example_result,
       printed = []\<rparr>)"
  by (simp add: reload_from_source_def write_logged_filenames_def example_disk_def
        example_env_def example_wide_def example_more_def example_parse_def
        SCHEMA_REGISTRY_def schema_1_pred_def schema_2_pred_def schema_2_normalize_def
        parse_timestamp_column_def column_values_def set_column_def get_column_def
        date_format_match_def full_match_def date_format_def is_digit_def process_file_def
        read_file_def splitext_ext_def basename_def empty_frame_def
        pd_concat_def sort_values_def comparable_def drop_duplicates_def
        reset_index_drop_def range_index_def example_result_def example_store_def)

theorem reload_sorted_distinct_witness:
  "fst (reload_from_source example_env (SCHEMA_REGISTRY example_parse) ''Online Data''
      [''d.csv'', ''.DS_Store'', ''a.txt''] example_disk) = Inr example_result
   \<and> (\<exists>k. get_column ''Timestamp'' example_result = Inr k
          \<and> sorted_wrt cell_le (column_values k example_result))
   \<and> distinct (map snd (rows example_result))"
  using reload_sorted_distinct [OF reload_example] reload_example by simp

end
